theory Spec2Isabelle
  imports Main
begin

section \<open>Data model\<close>

text \<open>
  The rigid transformation type (\<open>Eigen::Transform3d\<close>) belongs to the math library.
  It is the type parameter \<open>'t\<close>; its identity, product and inverse are passed to the
  functions that use them. \<open>base::Time\<close> is a count of microseconds. The fields of a
  \<open>Transformation\<close> carry the prefix \<open>tr_\<close>, since \<open>from\<close> is a keyword.
\<close>

type_synonym Time = int

record 't Transformation =
  tr_from :: string
  tr_to :: string
  tr_time :: Time
  tr_transform :: 't

text \<open>
  The three kinds of edge. A static element stores its transform, a dynamic element stores
  the index of its stream in the aggregator, an inverse element stores the element it
  reverses.
\<close>

datatype 't TransformationElement =
    StaticTransformationElement string string 't
  | DynamicTransformationElement string string int
  | InverseTransformationElement "'t TransformationElement"

text \<open>
  Modelled from the spec: the constructors of the element classes are declared in
  \<open>Transformer.h\<close>, which is not part of the sources at hand. The static and dynamic
  elements report the frames they were built with; an inverse element reports the frames of
  the element it wraps, swapped.
\<close>

fun getSourceFrame :: "'t TransformationElement \<Rightarrow> string"
  and getTargetFrame :: "'t TransformationElement \<Rightarrow> string" where
  "getSourceFrame (StaticTransformationElement s t T) = s"
| "getSourceFrame (DynamicTransformationElement s t idx) = s"
| "getSourceFrame (InverseTransformationElement e) = getTargetFrame e"
| "getTargetFrame (StaticTransformationElement s t T) = t"
| "getTargetFrame (DynamicTransformationElement s t idx) = t"
| "getTargetFrame (InverseTransformationElement e) = getSourceFrame e"

text \<open>
  Modelled from the spec: sampling a static element returns the stored transform at any
  time (the method is declared in \<open>Transformer.h\<close>). Sampling a dynamic element asks the
  aggregator, here the parameter \<open>query\<close> (stream index, time, interpolation flag). The
  inverse case is \<open>InverseTransformationElement::getTransformation\<close> of the source. The
  value \<open>None\<close> is the \<open>false\<close> return value: no sample.
\<close>

fun getTransformation_element ::
  "('t \<Rightarrow> 't) \<Rightarrow> (int \<Rightarrow> Time \<Rightarrow> bool \<Rightarrow> 't option) \<Rightarrow> 't TransformationElement
     \<Rightarrow> Time \<Rightarrow> bool \<Rightarrow> 't option" where
  "getTransformation_element invert query (StaticTransformationElement s t T) atTime doInterpolation =
     Some T"
| "getTransformation_element invert query (DynamicTransformationElement s t idx) atTime doInterpolation =
     query idx atTime doInterpolation"
| "getTransformation_element invert query (InverseTransformationElement nonInverseElement) atTime doInterpolation =
     (case getTransformation_element invert query nonInverseElement atTime doInterpolation of
        Some tr \<Rightarrow> Some (invert tr)
      | None \<Rightarrow> None)"

record 't TransformationTree =
  availableElements :: "'t TransformationElement list"
  maxSeekDepth :: int

text \<open>
  A search node. The source builds a node either as the root, with both pointers null, or
  as a child, with both its parent and the element leading to it set; these are the two
  constructors. The children of a node are the list that \<open>addMatchingTransforms\<close>
  returns.
\<close>

datatype 't TransformationNode =
    RootNode string
  | ChildNode string "'t TransformationNode" "'t TransformationElement"

fun frameName :: "'t TransformationNode \<Rightarrow> string" where
  "frameName (RootNode f) = f"
| "frameName (ChildNode f p e) = f"

fun parent :: "'t TransformationNode \<Rightarrow> 't TransformationNode option" where
  "parent (RootNode f) = None"
| "parent (ChildNode f p e) = Some p"

record 't TransformationMakerBase =
  sourceFrame :: string
  targetFrame :: string
  transformationChain :: "'t TransformationElement list"

record ('t, 'agg) Transformer =
  aggregator :: 'agg
  transformToStreamIndex :: "string \<times> string \<rightharpoonup> int"
  transformationTree :: "'t TransformationTree"
  transformationMakers :: "'t TransformationMakerBase list"

section \<open>TransformationTree\<close>

definition addTransformation ::
  "'t TransformationElement \<Rightarrow> 't TransformationTree \<Rightarrow> 't TransformationTree" where
  "addTransformation element tree =
     (let tree1 = tree\<lparr>availableElements := availableElements tree @ [element]\<rparr>;
          inverseElement = InverseTransformationElement element
      in tree1\<lparr>availableElements := availableElements tree1 @ [inverseElement]\<rparr>)"

text \<open>
  The loop of \<open>addMatchingTransforms\<close> over the available elements; \<open>childs\<close> is the
  child vector of \<open>node\<close>, returned extended.
\<close>

fun addMatchingTransforms ::
  "'t TransformationElement list \<Rightarrow> string \<Rightarrow> 't TransformationNode
     \<Rightarrow> 't TransformationNode list \<Rightarrow> 't TransformationNode list" where
  "addMatchingTransforms [] frm node childs = childs"
| "addMatchingTransforms (e # es) frm node childs =
     (if getSourceFrame e = frm then
        (if (case parent node of Some p \<Rightarrow> frameName p = getTargetFrame e | None \<Rightarrow> False)
         then addMatchingTransforms es frm node childs
         else addMatchingTransforms es frm node (childs @ [ChildNode (getTargetFrame e) node e]))
      else addMatchingTransforms es frm node childs)"

fun checkForMatchingChildFrame ::
  "string \<Rightarrow> 't TransformationNode list \<Rightarrow> 't TransformationNode option" where
  "checkForMatchingChildFrame to [] = None"
| "checkForMatchingChildFrame to (c # cs) =
     (if frameName c = to then Some c else checkForMatchingChildFrame to cs)"

text \<open>
  The \<open>while (curNode->parent)\<close> loop of \<open>getTransformationChain\<close>: it pushes the
  element leading to the current node and moves to the parent.
\<close>

fun collectChain ::
  "'t TransformationNode \<Rightarrow> 't TransformationElement list \<Rightarrow> 't TransformationElement list" where
  "collectChain (RootNode f) result = result"
| "collectChain (ChildNode f p e) result = collectChain p (result @ [e])"

text \<open>
  The inner loop of \<open>getTransformationChain\<close> over the nodes of the current level:
  \<open>Inl candidate\<close> when a node has a child named \<open>to\<close>, otherwise \<open>Inr\<close> of the
  next level. Every node is expanded once, so its child vector is empty before the call of
  \<open>addMatchingTransforms\<close>. The lines written to \<open>std::cout\<close> are left out.
\<close>

fun expandLevel ::
  "'t TransformationElement list \<Rightarrow> string \<Rightarrow> 't TransformationNode list
     \<Rightarrow> 't TransformationNode list \<Rightarrow> 't TransformationNode + 't TransformationNode list" where
  "expandLevel elems to [] nextLevel = Inr nextLevel"
| "expandLevel elems to (n # ns) nextLevel =
     (let childs = addMatchingTransforms elems (frameName n) n []
      in case checkForMatchingChildFrame to childs of
           Some candidate \<Rightarrow> Inl candidate
         | None \<Rightarrow> expandLevel elems to ns (nextLevel @ childs))"

text \<open>
  The outer loop, \<open>for (int i = 0; i < maxSeekDepth && curLevel.size(); i++)\<close>. The
  counter never exceeds \<open>maxSeekDepth\<close>, so it does not wrap and is an \<open>int\<close> here.
  The result is the returned flag and the \<open>result\<close> vector.
\<close>

function seekLevels ::
  "'t TransformationElement list \<Rightarrow> int \<Rightarrow> string \<Rightarrow> int \<Rightarrow> 't TransformationNode list
     \<Rightarrow> 't TransformationElement list \<Rightarrow> bool \<times> 't TransformationElement list" where
  "seekLevels elems maxDepth to i curLevel result =
     (if i < maxDepth \<and> curLevel \<noteq> [] then
        (case expandLevel elems to curLevel [] of
           Inl candidate \<Rightarrow> (True, collectChain candidate result)
         | Inr nextLevel \<Rightarrow> seekLevels elems maxDepth to (i + 1) nextLevel result)
      else (False, result))"
  by pat_completeness auto
termination
  by (relation "measure (\<lambda>(elems, maxDepth, to, i, curLevel, result). nat (maxDepth - i))") auto

declare seekLevels.simps [simp del]

definition getTransformationChain ::
  "'t TransformationTree \<Rightarrow> string \<Rightarrow> string \<Rightarrow> 't TransformationElement list
     \<Rightarrow> bool \<times> 't TransformationElement list" where
  "getTransformationChain tree frm to result =
     seekLevels (availableElements tree) (maxSeekDepth tree) to 0 [RootNode frm] result"

section \<open>TransformationMakerBase\<close>

text \<open>
  The loop of \<open>TransformationMakerBase::getTransformation\<close> over the chain. \<open>sample\<close>
  is the virtual \<open>getTransformation\<close> of an element at the query time; \<open>sampled\<close>
  records the elements that were asked for a sample, in order.
\<close>

fun composeChain ::
  "('t TransformationElement \<Rightarrow> 't option) \<Rightarrow> ('t \<Rightarrow> 't \<Rightarrow> 't) \<Rightarrow> 't TransformationElement list
     \<Rightarrow> 't \<Rightarrow> 't TransformationElement list \<Rightarrow> 't TransformationElement list \<times> 't option" where
  "composeChain sample mul [] acc sampled = (sampled, Some acc)"
| "composeChain sample mul (e # es) acc sampled =
     (case sample e of
        None \<Rightarrow> (sampled @ [e], None)
      | Some tr \<Rightarrow> composeChain sample mul es (mul acc tr) (sampled @ [e]))"

definition getTransformation_maker ::
  "'t \<Rightarrow> ('t \<Rightarrow> 't \<Rightarrow> 't) \<Rightarrow> ('t \<Rightarrow> 't) \<Rightarrow> (int \<Rightarrow> Time \<Rightarrow> bool \<Rightarrow> 't option)
     \<Rightarrow> 't TransformationMakerBase \<Rightarrow> Time \<Rightarrow> bool
     \<Rightarrow> 't TransformationElement list \<times> 't Transformation option" where
  "getTransformation_maker ident mul invert query maker time doInterpolation =
     (let transformation =
            \<lparr>tr_from = sourceFrame maker, tr_to = targetFrame maker, tr_time = time,
             tr_transform = ident\<rparr>
      in if transformationChain maker = [] then ([], None)
         else
           (case composeChain (\<lambda>e. getTransformation_element invert query e time doInterpolation)
                   mul (transformationChain maker) (tr_transform transformation) [] of
              (sampled, None) \<Rightarrow> (sampled, None)
            | (sampled, Some m) \<Rightarrow> (sampled, Some (transformation\<lparr>tr_transform := m\<rparr>))))"

text \<open>
  Modelled from the spec: \<open>setTransformationChain\<close> is declared in \<open>Transformer.h\<close>;
  it replaces any prior chain of the maker.
\<close>

definition setTransformationChain ::
  "'t TransformationElement list \<Rightarrow> 't TransformationMakerBase \<Rightarrow> 't TransformationMakerBase" where
  "setTransformationChain chain maker = maker\<lparr>transformationChain := chain\<rparr>"

section \<open>Transformer\<close>

text \<open>
  The aggregator is an external collaborator. Its state is the type parameter \<open>'agg\<close>;
  \<open>registerStream\<close> stands for the call
  \<open>aggregator.registerStream<Transformation>(NULL, 0, base::Time(), 10)\<close> and returns
  the new stream index with the new aggregator state; \<open>push\<close> stands for
  \<open>aggregator.push(index, time, sample)\<close>.
\<close>

definition registerTransformationStream ::
  "('agg \<Rightarrow> int \<times> 'agg) \<Rightarrow> string \<Rightarrow> string \<Rightarrow> 'agg \<Rightarrow> int \<times> 'agg" where
  "registerTransformationStream registerStream frm to agg = registerStream agg"

text \<open>The loop of \<open>pushDynamicTransformation\<close> over the registered makers.\<close>

fun updateChains ::
  "'t TransformationTree \<Rightarrow> 't TransformationMakerBase list \<Rightarrow> 't TransformationMakerBase list" where
  "updateChains tree [] = []"
| "updateChains tree (m # ms) =
     (let (found, trChain) = getTransformationChain tree (sourceFrame m) (targetFrame m) []
      in (if found then setTransformationChain trChain m else m) # updateChains tree ms)"

text \<open>
  \<open>pushDynamicTransformation\<close>. The \<open>assert\<close> after the second lookup aborts the
  process when the entry is missing: the result \<open>None\<close>.
\<close>

definition pushDynamicTransformation ::
  "('agg \<Rightarrow> int \<times> 'agg) \<Rightarrow> (int \<Rightarrow> Time \<Rightarrow> 't Transformation \<Rightarrow> 'agg \<Rightarrow> 'agg)
     \<Rightarrow> 't Transformation \<Rightarrow> ('t, 'agg) Transformer \<Rightarrow> ('t, 'agg) Transformer option" where
  "pushDynamicTransformation registerStream push tr T =
     (case transformToStreamIndex T (tr_from tr, tr_to tr) of
        None \<Rightarrow>
          (let (streamIdx, agg1) =
                 registerTransformationStream registerStream (tr_from tr) (tr_to tr) (aggregator T);
               T1 = T\<lparr>aggregator := agg1\<rparr>;
               T2 = T1\<lparr>transformToStreamIndex :=
                        (transformToStreamIndex T1)((tr_from tr, tr_to tr) \<mapsto> streamIdx)\<rparr>;
               dynamicElement = DynamicTransformationElement (tr_from tr) (tr_to tr) streamIdx;
               T3 = T2\<lparr>transformationTree := addTransformation dynamicElement (transformationTree T2)\<rparr>;
               T4 = T3\<lparr>transformationMakers :=
                        updateChains (transformationTree T3) (transformationMakers T3)\<rparr>
           in (case transformToStreamIndex T4 (tr_from tr, tr_to tr) of
                 None \<Rightarrow> None
               | Some idx \<Rightarrow> Some (T4\<lparr>aggregator := push idx (tr_time tr) tr (aggregator T4)\<rparr>)))
      | Some idx \<Rightarrow> Some (T\<lparr>aggregator := push idx (tr_time tr) tr (aggregator T)\<rparr>))"

definition pushStaticTransformation ::
  "'t Transformation \<Rightarrow> ('t, 'agg) Transformer \<Rightarrow> ('t, 'agg) Transformer" where
  "pushStaticTransformation tr T =
     T\<lparr>transformationTree :=
         addTransformation (StaticTransformationElement (tr_from tr) (tr_to tr) (tr_transform tr))
           (transformationTree T)\<rparr>"

fun addTransformationChain_makers ::
  "string \<Rightarrow> string \<Rightarrow> 't TransformationElement list \<Rightarrow> 't TransformationMakerBase list
     \<Rightarrow> 't TransformationMakerBase list" where
  "addTransformationChain_makers frm to chain [] = []"
| "addTransformationChain_makers frm to chain (m # ms) =
     (if sourceFrame m = frm \<and> targetFrame m = to then setTransformationChain chain m else m)
       # addTransformationChain_makers frm to chain ms"

definition addTransformationChain ::
  "string \<Rightarrow> string \<Rightarrow> 't TransformationElement list \<Rightarrow> ('t, 'agg) Transformer
     \<Rightarrow> ('t, 'agg) Transformer" where
  "addTransformationChain frm to chain T =
     T\<lparr>transformationMakers := addTransformationChain_makers frm to chain (transformationMakers T)\<rparr>"

section \<open>Paths in the tree of edges\<close>

text \<open>
  The elements on the way from the root of the search to a node, first the one that leaves
  the root.
\<close>

fun pathTo :: "'t TransformationNode \<Rightarrow> 't TransformationElement list" where
  "pathTo (RootNode f) = []"
| "pathTo (ChildNode f p e) = pathTo p @ [e]"

text \<open>
  \<open>connected a p b\<close>: the elements of \<open>p\<close>, taken in order, lead from frame \<open>a\<close> to
  frame \<open>b\<close>. \<open>noReversal p\<close>: no element of \<open>p\<close> leads back to the frame that the
  element before it started from.
\<close>

fun connected :: "string \<Rightarrow> 't TransformationElement list \<Rightarrow> string \<Rightarrow> bool" where
  "connected a [] b = (a = b)"
| "connected a (e # es) b = (getSourceFrame e = a \<and> connected (getTargetFrame e) es b)"

fun noReversal :: "'t TransformationElement list \<Rightarrow> bool" where
  "noReversal [] = True"
| "noReversal [e] = True"
| "noReversal (e1 # e2 # es) = (getTargetFrame e2 \<noteq> getSourceFrame e1 \<and> noReversal (e2 # es))"

text \<open>
  The nodes that the search started at \<open>frm\<close> can hold at depth \<open>d\<close>: the invariant
  of the levels.
\<close>

fun reaches ::
  "'t TransformationElement list \<Rightarrow> string \<Rightarrow> nat \<Rightarrow> 't TransformationNode \<Rightarrow> bool" where
  "reaches elems frm d (RootNode f) = (f = frm \<and> d = 0)"
| "reaches elems frm d (ChildNode f p e) =
     (d \<noteq> 0 \<and> reaches elems frm (d - 1) p \<and> e \<in> set elems \<and> f = getTargetFrame e
      \<and> getSourceFrame e = frameName p
      \<and> (case parent p of Some q \<Rightarrow> frameName q \<noteq> getTargetFrame e | None \<Rightarrow> True))"

section \<open>A concrete instance\<close>

text \<open>
  The rigid motions of a line, \<open>x \<mapsto> s * x + b\<close> with \<open>s\<close> either 1 or -1, stored as
  the pair \<open>(s, b)\<close>: a small transformation type whose product does not commute. It
  stands for the math library in the examples below. With it come an aggregator that holds
  no data, one that numbers its streams from 0 and logs what is pushed, the frames and
  edges of the spec's scenarios, and the transformer of scenario S3 before
  (\<open>transformer_S3\<close>) and after (\<open>transformer_S3_BC\<close>) the first dynamic sample.
\<close>

definition line_ident :: "int \<times> int" where
  "line_ident = (1, 0)"

definition line_mul :: "int \<times> int \<Rightarrow> int \<times> int \<Rightarrow> int \<times> int" where
  "line_mul m t = (fst m * fst t, fst m * snd t + snd m)"

definition line_inverse :: "int \<times> int \<Rightarrow> int \<times> int" where
  "line_inverse m = (fst m, - (fst m * snd m))"

definition no_stream_data :: "int \<Rightarrow> Time \<Rightarrow> bool \<Rightarrow> (int \<times> int) option" where
  "no_stream_data idx atTime doInterpolation = None"

definition counting_registerStream ::
  "int \<times> (int \<times> Time) list \<Rightarrow> int \<times> (int \<times> (int \<times> Time) list)" where
  "counting_registerStream agg = (fst agg, (fst agg + 1, snd agg))"

definition logging_push ::
  "int \<Rightarrow> Time \<Rightarrow> (int \<times> int) Transformation \<Rightarrow> int \<times> (int \<times> Time) list
     \<Rightarrow> int \<times> (int \<times> Time) list" where
  "logging_push idx t tr agg = (fst agg, snd agg @ [(idx, t)])"

definition edge_AB :: "(int \<times> int) TransformationElement" where
  "edge_AB = StaticTransformationElement ''A'' ''B'' (1, 1)"

definition edge_BC :: "(int \<times> int) TransformationElement" where
  "edge_BC = StaticTransformationElement ''B'' ''C'' (- 1, 0)"

definition edge_CA :: "(int \<times> int) TransformationElement" where
  "edge_CA = StaticTransformationElement ''C'' ''A'' (1, 3)"

definition tree_empty :: "(int \<times> int) TransformationTree" where
  "tree_empty = \<lparr>availableElements = [], maxSeekDepth = 20\<rparr>"

definition tree_AB :: "(int \<times> int) TransformationTree" where
  "tree_AB = addTransformation edge_AB tree_empty"

definition tree_ABC :: "(int \<times> int) TransformationTree" where
  "tree_ABC = addTransformation edge_BC tree_AB"

definition tree_ABCA :: "(int \<times> int) TransformationTree" where
  "tree_ABCA = addTransformation edge_CA tree_ABC"

definition sample_BC :: "(int \<times> int) Transformation" where
  "sample_BC = \<lparr>tr_from = ''B'', tr_to = ''C'', tr_time = 10, tr_transform = (1, 5)\<rparr>"

definition maker_AC :: "(int \<times> int) TransformationMakerBase" where
  "maker_AC = \<lparr>sourceFrame = ''A'', targetFrame = ''C'', transformationChain = []\<rparr>"

definition maker_XY :: "(int \<times> int) TransformationMakerBase" where
  "maker_XY = \<lparr>sourceFrame = ''X'', targetFrame = ''Y'', transformationChain = [edge_AB]\<rparr>"

definition transformer_S3 :: "(int \<times> int, int \<times> (int \<times> Time) list) Transformer" where
  "transformer_S3 =
     \<lparr>aggregator = (0, []), transformToStreamIndex = Map.empty, transformationTree = tree_AB,
      transformationMakers = [maker_AC, maker_XY]\<rparr>"

definition transformer_S3_BC :: "(int \<times> int, int \<times> (int \<times> Time) list) Transformer" where
  "transformer_S3_BC =
     \<lparr>aggregator = (1, [(0, 10)]),
      transformToStreamIndex = [(''B'', ''C'') \<mapsto> 0],
      transformationTree =
        \<lparr>availableElements =
           [edge_AB, InverseTransformationElement edge_AB,
            DynamicTransformationElement ''B'' ''C'' 0,
            InverseTransformationElement (DynamicTransformationElement ''B'' ''C'' 0)],
         maxSeekDepth = 20\<rparr>,
      transformationMakers =
        [maker_AC\<lparr>transformationChain := [DynamicTransformationElement ''B'' ''C'' 0, edge_AB]\<rparr>,
         maker_XY]\<rparr>"

definition sample_CD :: "(int \<times> int) Transformation" where
  "sample_CD = \<lparr>tr_from = ''C'', tr_to = ''D'', tr_time = 12, tr_transform = (1, 2)\<rparr>"

lemmas example_defs =
  line_ident_def line_mul_def line_inverse_def no_stream_data_def counting_registerStream_def
  logging_push_def edge_AB_def edge_BC_def edge_CA_def tree_empty_def tree_AB_def tree_ABC_def
  tree_ABCA_def sample_BC_def maker_AC_def maker_XY_def transformer_S3_def
section \<open>Properties of the search\<close>

lemma addMatchingTransforms_eq:
  "addMatchingTransforms elems frm node childs =
     childs @ map (\<lambda>e. ChildNode (getTargetFrame e) node e)
       (filter (\<lambda>e. getSourceFrame e = frm
                 \<and> \<not> (case parent node of Some p \<Rightarrow> frameName p = getTargetFrame e | None \<Rightarrow> False))
          elems)"
  by (induction elems arbitrary: childs) auto

lemma collectChain_eq: "collectChain n result = result @ rev (pathTo n)"
  by (induction n arbitrary: result) auto

lemma connected_snoc:
  "connected a (es @ [e]) b = (connected a es (getSourceFrame e) \<and> getTargetFrame e = b)"
  by (induction es arbitrary: a) auto

lemma noReversal_snoc:
  "noReversal (es @ [e]) =
     (noReversal es \<and> (es \<noteq> [] \<longrightarrow> getTargetFrame e \<noteq> getSourceFrame (last es)))"
  by (induction es rule: noReversal.induct) auto

lemma reaches_children:
  assumes "reaches elems frm d n"
      and "c \<in> set (addMatchingTransforms elems (frameName n) n [])"
  shows "reaches elems frm (Suc d) c"
  using assms by (auto simp: addMatchingTransforms_eq split: option.splits)

lemma checkForMatchingChildFrame_Some:
  "checkForMatchingChildFrame to cs = Some c \<Longrightarrow> c \<in> set cs \<and> frameName c = to"
  by (induction cs) (auto split: if_splits)

lemma checkForMatchingChildFrame_None:
  "checkForMatchingChildFrame to cs = None \<longleftrightarrow> (\<forall>c\<in>set cs. frameName c \<noteq> to)"
  by (induction cs) auto

lemma expandLevel_reaches:
  assumes "\<forall>n\<in>set cur. reaches elems frm d n"
      and "\<forall>n\<in>set nl. reaches elems frm (Suc d) n"
  shows "(\<forall>c. expandLevel elems to cur nl = Inl c \<longrightarrow> reaches elems frm (Suc d) c \<and> frameName c = to)
       \<and> (\<forall>nl'. expandLevel elems to cur nl = Inr nl' \<longrightarrow> (\<forall>n\<in>set nl'. reaches elems frm (Suc d) n))"
  using assms
proof (induction cur arbitrary: nl)
  case Nil
  then show ?case by simp
next
  case (Cons n ns)
  let ?childs = "addMatchingTransforms elems (frameName n) n []"
  have ch: "\<forall>c\<in>set ?childs. reaches elems frm (Suc d) c"
    using Cons.prems(1) reaches_children by (metis list.set_intros(1))
  show ?case
  proof (cases "checkForMatchingChildFrame to ?childs")
    case None
    have "\<forall>n\<in>set (nl @ ?childs). reaches elems frm (Suc d) n"
      using Cons.prems(2) ch by auto
    with Cons.IH [of "nl @ ?childs"] Cons.prems(1) None show ?thesis
      by (simp add: Let_def)
  next
    case (Some c)
    with checkForMatchingChildFrame_Some [OF Some] ch show ?thesis
      by (simp add: Let_def)
  qed
qed

lemma seekLevels_found:
  assumes "0 \<le> i"
      and "\<forall>n\<in>set cur. reaches elems frm (nat i) n"
      and "seekLevels elems maxDepth to i cur result = (True, r)"
  shows "\<exists>c d. reaches elems frm d c \<and> frameName c = to \<and> 0 < d \<and> int d \<le> maxDepth
           \<and> r = collectChain c result"
  using assms
proof (induction elems maxDepth to i cur result rule: seekLevels.induct)
  case (1 elems maxDepth to i curLevel result)
  note unfold = seekLevels.simps [of elems maxDepth to i curLevel result]
  from "1.prems"(3) have go: "i < maxDepth" "curLevel \<noteq> []"
    by (auto simp: unfold split: if_splits)
  have nil: "\<forall>n\<in>set ([]::'a TransformationNode list). reaches elems frm (Suc (nat i)) n" by simp
  note ex = expandLevel_reaches [OF "1.prems"(2) nil, of to]
  show ?case
  proof (cases "expandLevel elems to curLevel []")
    case (Inl c)
    with ex have "reaches elems frm (Suc (nat i)) c" "frameName c = to" by auto
    moreover from Inl go "1.prems"(3) have "r = collectChain c result" by (simp add: unfold)
    moreover from go "1.prems"(1) have "int (Suc (nat i)) \<le> maxDepth" by simp
    ultimately show ?thesis by blast
  next
    case (Inr nl)
    with ex have "\<forall>n\<in>set nl. reaches elems frm (Suc (nat i)) n" by auto
    moreover from "1.prems"(1) have "Suc (nat i) = nat (i + 1)" by simp
    ultimately have a: "\<forall>n\<in>set nl. reaches elems frm (nat (i + 1)) n" by simp
    from Inr go "1.prems"(3) have b: "seekLevels elems maxDepth to (i + 1) nl result = (True, r)"
      by (simp add: unfold)
    from "1.prems"(1) have c: "0 \<le> i + 1" by simp
    from "1.IH" [OF _ Inr c a b] go show ?thesis by simp
  qed
qed

lemma seekLevels_not_found:
  "seekLevels elems maxDepth to i cur result = (False, r) \<Longrightarrow> r = result"
proof (induction elems maxDepth to i cur result rule: seekLevels.induct)
  case (1 elems maxDepth to i curLevel result)
  then show ?case
    by (cases "i < maxDepth \<and> curLevel \<noteq> []"; cases "expandLevel elems to curLevel []")
      (auto simp: seekLevels.simps [of elems maxDepth to i curLevel result])
qed

lemma reaches_path:
  "reaches elems frm d n \<Longrightarrow>
     length (pathTo n) = d \<and> set (pathTo n) \<subseteq> set elems \<and> connected frm (pathTo n) (frameName n)
       \<and> noReversal (pathTo n)"
proof (induction n arbitrary: d)
  case (RootNode f)
  then show ?case by simp
next
  case (ChildNode f p e)
  from ChildNode.prems have d: "d \<noteq> 0" and rp: "reaches elems frm (d - 1) p"
    and e: "e \<in> set elems" "f = getTargetFrame e" "getSourceFrame e = frameName p"
    and g: "(case parent p of Some q \<Rightarrow> frameName q \<noteq> getTargetFrame e | None \<Rightarrow> True)"
    by simp_all
  note ih = ChildNode.IH [OF rp]
  have "pathTo p \<noteq> [] \<longrightarrow> getTargetFrame e \<noteq> getSourceFrame (last (pathTo p))"
  proof (cases p)
    case (RootNode x1)
    then show ?thesis by simp
  next
    case (ChildNode f' q e')
    with rp g show ?thesis by simp
  qed
  with ih d e show ?case
    by (simp add: connected_snoc noReversal_snoc)
qed


lemma connected_nth:
  "connected a p b \<Longrightarrow> p \<noteq> [] \<Longrightarrow>
     getSourceFrame (hd p) = a \<and> getTargetFrame (last p) = b
       \<and> (\<forall>i. Suc i < length p \<longrightarrow> getTargetFrame (p ! i) = getSourceFrame (p ! Suc i))"
proof (induction p arbitrary: a)
  case Nil
  then show ?case by simp
next
  case (Cons e es)
  show ?case
  proof (cases es)
    case Nil
    with Cons.prems show ?thesis by simp
  next
    case (Cons e' es')
    with Cons.prems Cons.IH [of "getTargetFrame e"]
    have ih: "getSourceFrame (hd es) = getTargetFrame e" "getTargetFrame (last es) = b"
      "\<forall>i. Suc i < length es \<longrightarrow> getTargetFrame (es ! i) = getSourceFrame (es ! Suc i)"
      by simp_all
    have "getTargetFrame ((e # es) ! i) = getSourceFrame ((e # es) ! Suc i)"
      if "Suc i < length (e # es)" for i
    proof (cases i)
      case 0
      with ih(1) Cons show ?thesis by simp
    next
      case (Suc j)
      with that ih(3) show ?thesis by simp
    qed
    with Cons.prems ih(2) Cons show ?thesis by simp
  qed
qed

lemma noReversal_nth:
  "noReversal p \<Longrightarrow> Suc i < length p \<Longrightarrow> getTargetFrame (p ! Suc i) \<noteq> getSourceFrame (p ! i)"
proof (induction p arbitrary: i rule: noReversal.induct)
  case 1
  then show ?case by simp
next
  case (2 e)
  then show ?case by simp
next
  case (3 e1 e2 es)
  show ?case
  proof (cases i)
    case 0
    with "3.prems" show ?thesis by simp
  next
    case (Suc j)
    with "3.prems" "3.IH" [of j] show ?thesis by simp
  qed
qed

lemma getTransformationChain_found:
  assumes "getTransformationChain tree frm to result = (True, r)"
  shows "\<exists>p. r = result @ rev p \<and> p \<noteq> [] \<and> int (length p) \<le> maxSeekDepth tree
           \<and> set p \<subseteq> set (availableElements tree) \<and> connected frm p to \<and> noReversal p"
proof -
  have root: "\<forall>n\<in>set [RootNode frm]. reaches (availableElements tree) frm (nat 0) n"
    by simp
  from assms have "seekLevels (availableElements tree) (maxSeekDepth tree) to 0 [RootNode frm] result = (True, r)"
    by (simp add: getTransformationChain_def)
  from seekLevels_found [OF _ root this]
  obtain c d where c: "reaches (availableElements tree) frm d c" "frameName c = to" "0 < d"
    "int d \<le> maxSeekDepth tree" "r = collectChain c result"
    by auto
  from reaches_path [OF c(1)] c(2-5) show ?thesis
    by (intro exI [of _ "pathTo c"]) (auto simp: collectChain_eq)
qed

lemma getTransformationChain_not_found:
  "getTransformationChain tree frm to result = (False, r) \<Longrightarrow> r = result"
  unfolding getTransformationChain_def by (rule seekLevels_not_found)

text \<open>Completeness of the search: every level holds all the nodes of its depth.\<close>

lemma expandLevel_Inr:
  "expandLevel elems to cur nl = Inr nl' \<longleftrightarrow>
     ((\<forall>n\<in>set cur. \<forall>c\<in>set (addMatchingTransforms elems (frameName n) n []). frameName c \<noteq> to)
       \<and> nl' = nl @ concat (map (\<lambda>n. addMatchingTransforms elems (frameName n) n []) cur))"
proof (induction cur arbitrary: nl)
  case Nil
  then show ?case by auto
next
  case (Cons n ns)
  show ?case
  proof (cases "checkForMatchingChildFrame to (addMatchingTransforms elems (frameName n) n [])")
    case None
    with Cons.IH [of "nl @ addMatchingTransforms elems (frameName n) n []"] show ?thesis
      by (simp add: Let_def checkForMatchingChildFrame_None [symmetric])
  next
    case (Some c)
    have "\<not> (\<forall>c\<in>set (addMatchingTransforms elems (frameName n) n []). frameName c \<noteq> to)"
      using checkForMatchingChildFrame_Some [OF Some] by blast
    with Some show ?thesis by (simp add: Let_def)
  qed
qed

lemma reaches_child_member:
  assumes "reaches elems frm (Suc d) c"
  shows "\<exists>p. reaches elems frm d p \<and> c \<in> set (addMatchingTransforms elems (frameName p) p [])"
proof (cases c)
  case (RootNode f)
  with assms show ?thesis by simp
next
  case (ChildNode f p e)
  with assms have "reaches elems frm d p" by simp
  moreover from ChildNode assms have "c \<in> set (addMatchingTransforms elems (frameName p) p [])"
    by (auto simp: addMatchingTransforms_eq split: option.splits)
  ultimately show ?thesis by blast
qed

lemma reaches_ancestor:
  "reaches elems frm d c \<Longrightarrow> k \<le> d \<Longrightarrow> \<exists>n. reaches elems frm k n"
proof (induction c arbitrary: d)
  case (RootNode f)
  then show ?case by (auto intro: exI [of _ "RootNode frm"])
next
  case (ChildNode f p e)
  show ?case
  proof (cases "k = d")
    case True
    with ChildNode.prems(1) show ?thesis by blast
  next
    case False
    with ChildNode.prems have "k \<le> d - 1" "reaches elems frm (d - 1) p" by simp_all
    with ChildNode.IH show ?thesis by blast
  qed
qed

lemma seekLevels_complete:
  assumes "0 \<le> i"
      and "set cur = {n. reaches elems frm (nat i) n}"
      and "reaches elems frm d c" and "frameName c = to"
      and "nat i < d" and "int d \<le> maxDepth"
  shows "fst (seekLevels elems maxDepth to i cur result)"
  using assms
proof (induction elems maxDepth to i cur result rule: seekLevels.induct)
  case (1 elems maxDepth to i curLevel result)
  from "1.prems"(1,5,6) have lt: "i < maxDepth" by linarith
  from reaches_ancestor [OF "1.prems"(3), of "nat i"] "1.prems"(5,2)
  have ne: "curLevel \<noteq> []" by auto
  show ?case
  proof (cases "expandLevel elems to curLevel []")
    case (Inl cand)
    with lt ne show ?thesis by (simp add: seekLevels.simps [of elems maxDepth to i curLevel result])
  next
    case (Inr nl)
    from Inr [unfolded expandLevel_Inr]
    have nomatch: "\<forall>n\<in>set curLevel. \<forall>c\<in>set (addMatchingTransforms elems (frameName n) n []). frameName c \<noteq> to"
      and nl: "nl = concat (map (\<lambda>n. addMatchingTransforms elems (frameName n) n []) curLevel)"
      by simp_all
    have lvl: "set nl = {n. reaches elems frm (Suc (nat i)) n}"
    proof (intro set_eqI iffI)
      fix x assume "x \<in> set nl"
      with nl obtain n where "n \<in> set curLevel" "x \<in> set (addMatchingTransforms elems (frameName n) n [])"
        by auto
      with "1.prems"(2) reaches_children [of elems frm "nat i" n x]
      show "x \<in> {n. reaches elems frm (Suc (nat i)) n}" by simp
    next
      fix x assume "x \<in> {n. reaches elems frm (Suc (nat i)) n}"
      then have "reaches elems frm (Suc (nat i)) x" by simp
      from reaches_child_member [OF this] "1.prems"(2) nl show "x \<in> set nl" by auto
    qed
    have "d \<noteq> Suc (nat i)"
    proof
      assume "d = Suc (nat i)"
      with "1.prems"(3) lvl have "c \<in> set nl" by simp
      with nl nomatch "1.prems"(4) show False by auto
    qed
    with "1.prems"(5) "1.prems"(1) have d: "nat (i + 1) < d" by linarith
    from "1.prems"(1) have s: "Suc (nat i) = nat (i + 1)" by simp
    from "1.prems"(1) have c: "0 \<le> i + 1" by simp
    from "1.IH" [OF _ Inr c lvl [unfolded s] "1.prems"(3,4) d "1.prems"(6)] lt ne Inr
    show ?thesis by (simp add: seekLevels.simps [of elems maxDepth to i curLevel result])
  qed
qed

lemma path_node:
  "set p \<subseteq> set elems \<Longrightarrow> connected frm p b \<Longrightarrow> noReversal p \<Longrightarrow>
     \<exists>c. reaches elems frm (length p) c \<and> frameName c = b \<and> pathTo c = p"
proof (induction p arbitrary: b rule: rev_induct)
  case Nil
  then show ?case by (intro exI [of _ "RootNode frm"]) simp
next
  case (snoc e es)
  from snoc.prems have es: "set es \<subseteq> set elems" "connected frm es (getSourceFrame e)"
    "noReversal es" and e: "e \<in> set elems" "getTargetFrame e = b"
    and g: "es \<noteq> [] \<longrightarrow> getTargetFrame e \<noteq> getSourceFrame (last es)"
    by (simp_all add: connected_snoc noReversal_snoc)
  from snoc.IH [OF es] obtain c' where c': "reaches elems frm (length es) c'"
    "frameName c' = getSourceFrame e" "pathTo c' = es"
    by blast
  have guard: "(case parent c' of Some q \<Rightarrow> frameName q \<noteq> getTargetFrame e | None \<Rightarrow> True)"
  proof (cases c')
    case (RootNode f)
    then show ?thesis by simp
  next
    case (ChildNode f' q e')
    with c' g show ?thesis by auto
  qed
  with c' e show ?case
    by (intro exI [of _ "ChildNode (getTargetFrame e) c' e"]) simp
qed

lemma root_level: "set [RootNode frm] = {n. reaches elems frm (nat 0) n}"
proof (intro set_eqI iffI)
  fix x :: "'a TransformationNode" assume "x \<in> set [RootNode frm]"
  then show "x \<in> {n. reaches elems frm (nat 0) n}" by simp
next
  fix x :: "'a TransformationNode" assume "x \<in> {n. reaches elems frm (nat 0) n}"
  then show "x \<in> set [RootNode frm]" by (cases x) simp_all
qed

lemma getTransformationChain_complete:
  assumes "p \<noteq> []" and "int (length p) \<le> maxSeekDepth tree"
      and "set p \<subseteq> set (availableElements tree)" and "connected frm p to" and "noReversal p"
  shows "fst (getTransformationChain tree frm to result)"
proof -
  from path_node [OF assms(3,4,5)] obtain c where
    c: "reaches (availableElements tree) frm (length p) c" "frameName c = to" by blast
  from assms(1) have "nat 0 < length p" by simp
  from seekLevels_complete [OF _ root_level c this assms(2)] show ?thesis
    by (simp add: getTransformationChain_def)
qed

lemma composeChain_eq:
  "composeChain sample mul es acc sampled =
     (if \<forall>e\<in>set es. sample e \<noteq> None
      then (sampled @ es, Some (foldl mul acc (map (\<lambda>e. the (sample e)) es)))
      else (sampled @ take (Suc (length (takeWhile (\<lambda>e. sample e \<noteq> None) es))) es, None))"
  by (induction es arbitrary: acc sampled) (auto split: option.splits)

lemma updateChains_length: "length (updateChains tree ms) = length ms"
  by (induction ms) (simp_all add: case_prod_beta)

lemma updateChains_nth:
  "k < length ms \<Longrightarrow>
     updateChains tree ms ! k =
       (if fst (getTransformationChain tree (sourceFrame (ms ! k)) (targetFrame (ms ! k)) [])
        then setTransformationChain
               (snd (getTransformationChain tree (sourceFrame (ms ! k)) (targetFrame (ms ! k)) []))
               (ms ! k)
        else ms ! k)"
proof (induction ms arbitrary: k)
  case Nil
  then show ?case by simp
next
  case (Cons m ms)
  show ?case
  proof (cases k)
    case 0
    then show ?thesis by (simp add: case_prod_beta)
  next
    case (Suc j)
    with Cons.prems Cons.IH [of j] show ?thesis by (simp add: case_prod_beta)
  qed
qed

lemma pushDynamicTransformation_unknown:
  assumes "transformToStreamIndex T (tr_from tr, tr_to tr) = None"
      and "registerStream (aggregator T) = (streamIdx, aggR)"
  shows "pushDynamicTransformation registerStream push tr T =
      Some \<lparr>aggregator = push streamIdx (tr_time tr) tr aggR,
            transformToStreamIndex = (transformToStreamIndex T)((tr_from tr, tr_to tr) \<mapsto> streamIdx),
            transformationTree =
              addTransformation (DynamicTransformationElement (tr_from tr) (tr_to tr) streamIdx)
                (transformationTree T),
            transformationMakers =
              updateChains
                (addTransformation (DynamicTransformationElement (tr_from tr) (tr_to tr) streamIdx)
                   (transformationTree T))
                (transformationMakers T)\<rparr>"
  using assms
  by (simp add: pushDynamicTransformation_def registerTransformationStream_def Let_def)

lemma pushDynamicTransformation_known:
  assumes "transformToStreamIndex T (tr_from tr, tr_to tr) = Some idx"
  shows "pushDynamicTransformation registerStream push tr T =
           Some (T\<lparr>aggregator := push idx (tr_time tr) tr (aggregator T)\<rparr>)"
  using assms by (simp add: pushDynamicTransformation_def)

lemma connected_rev_nth:
  assumes "connected a p b" and "Suc i < length p"
  shows "getSourceFrame (rev p ! i) = getTargetFrame (rev p ! Suc i)"
proof -
  from assms(2) have p: "p \<noteq> []" by auto
  let ?j = "length p - Suc (Suc i)"
  from assms(2) have j: "Suc ?j < length p" "Suc ?j = length p - Suc i" by simp_all
  from assms(2) have "rev p ! i = p ! Suc ?j" "rev p ! Suc i = p ! ?j"
    by (simp_all add: rev_nth j(2))
  with connected_nth [OF assms(1) p] j(1) show ?thesis by simp
qed

section \<open>The claims\<close>

text \<open>
  C1, as the code has it. For every frame name \<open>A\<close>, \<open>getTransformationChain\<close> from
  \<open>A\<close> to \<open>A\<close> never succeeds with an empty chain. The search has no case for equal
  source and target frames: the root is not tested against the target, only children are.
  So the call either fails and leaves the result vector empty, or it returns at least one
  edge, a way from \<open>A\<close> back to \<open>A\<close>. With the single edge from \<open>A\<close> to another
  frame \<open>B\<close> and its inverse in the tree (scenario S4) it fails: the chain made of the
  edge and its inverse is not produced. A maker for \<open>(A, A)\<close> whose chain is empty
  returns no sample at any time, without sampling an element; it does not return the
  identity. The evaluations that follow cover scenario S4, a triangle of edges through
  \<open>A\<close>, and the maker with the empty chain.
\<close>

theorem find_chain_same_frame:
  "(getTransformationChain tree A A [] = (True, r) \<longrightarrow>
       r \<noteq> [] \<and> getTargetFrame (hd r) = A \<and> getSourceFrame (last r) = A)
   \<and> (getTransformationChain tree A A [] = (False, r) \<longrightarrow> r = [])
   \<and> (A \<noteq> B \<longrightarrow>
       getTransformationChain
         (addTransformation (StaticTransformationElement A B T)
            \<lparr>availableElements = [], maxSeekDepth = m\<rparr>) A A [] = (False, []))
   \<and> getTransformation_maker ident mul invert query
        \<lparr>sourceFrame = A, targetFrame = A, transformationChain = []\<rparr> time doInterpolation
      = ([], None)"
proof -
  have found: "getTransformationChain tree A A [] = (True, r) \<longrightarrow>
      r \<noteq> [] \<and> getTargetFrame (hd r) = A \<and> getSourceFrame (last r) = A"
  proof
    assume "getTransformationChain tree A A [] = (True, r)"
    from getTransformationChain_found [OF this] obtain p where
      p: "r = rev p" "p \<noteq> []" "connected A p A" by auto
    with connected_nth [OF p(3) p(2)]
    show "r \<noteq> [] \<and> getTargetFrame (hd r) = A \<and> getSourceFrame (last r) = A"
      by (simp add: hd_rev last_rev)
  qed
  have failed: "getTransformationChain tree A A [] = (False, r) \<longrightarrow> r = []"
    using getTransformationChain_not_found [of tree A A "[]" r] by blast
  have s4: "A \<noteq> B \<longrightarrow>
       getTransformationChain
         (addTransformation (StaticTransformationElement A B T)
            \<lparr>availableElements = [], maxSeekDepth = m\<rparr>) A A [] = (False, [])"
  proof
    assume ne: "A \<noteq> B"
    let ?e = "StaticTransformationElement A B T"
    let ?tree = "addTransformation ?e \<lparr>availableElements = [], maxSeekDepth = m\<rparr>"
    have elems: "availableElements ?tree = [?e, InverseTransformationElement ?e]"
      by (simp add: addTransformation_def)
    obtain found r' where res: "getTransformationChain ?tree A A [] = (found, r')"
      by (cases "getTransformationChain ?tree A A []")
    have "\<not> found"
    proof
      assume found
      with res have "getTransformationChain ?tree A A [] = (True, r')" by simp
      from getTransformationChain_found [OF this] obtain p where
        p: "p \<noteq> []" "set p \<subseteq> set (availableElements ?tree)" "connected A p A" "noReversal p"
        by auto
      from p(1) obtain e1 es where p1: "p = e1 # es" by (cases p) auto
      from p(3) p1 have s1: "getSourceFrame e1 = A" and c1: "connected (getTargetFrame e1) es A"
        by simp_all
      from p(2) p1 elems have d1: "e1 = ?e \<or> e1 = InverseTransformationElement ?e" by simp
      have e1: "e1 = ?e"
      proof (rule ccontr)
        assume "e1 \<noteq> ?e"
        with d1 have "e1 = InverseTransformationElement ?e" by simp
        then have "getSourceFrame e1 = B" by simp
        with s1 ne show False by simp
      qed
      with c1 have c2: "connected B es A" by simp
      with ne obtain e2 es' where p2: "es = e2 # es'" by (cases es) auto
      with c2 have s2: "getSourceFrame e2 = B" by simp
      from p(2) p1 p2 elems have d2: "e2 = ?e \<or> e2 = InverseTransformationElement ?e" by simp
      have e2: "e2 = InverseTransformationElement ?e"
      proof (rule ccontr)
        assume "e2 \<noteq> InverseTransformationElement ?e"
        with d2 have "e2 = ?e" by simp
        then have "getSourceFrame e2 = A" by simp
        with s2 ne show False by simp
      qed
      from p(4) p1 p2 e1 e2 show False by simp
    qed
    with res getTransformationChain_not_found [of ?tree A A "[]" r']
    show "getTransformationChain ?tree A A [] = (False, [])" by simp
  qed
  have maker: "getTransformation_maker ident mul invert query
          \<lparr>sourceFrame = A, targetFrame = A, transformationChain = []\<rparr> time doInterpolation
        = ([], None)"
    by (simp add: getTransformation_maker_def)
  from found failed s4 maker show ?thesis by blast
qed

theorem find_chain_same_frame_witness:
  "getTransformationChain tree_ABCA ''A'' ''A'' [] = (True, [edge_CA, edge_BC, edge_AB])
   \<and> getTargetFrame (hd [edge_CA, edge_BC, edge_AB]) = ''A''
   \<and> getSourceFrame (last [edge_CA, edge_BC, edge_AB]) = ''A''
   \<and> getTransformationChain tree_empty ''A'' ''A'' [] = (False, [])
   \<and> ''A'' \<noteq> ''B''
   \<and> getTransformationChain
        (addTransformation (StaticTransformationElement ''A'' ''B'' (1, 1))
           \<lparr>availableElements = [], maxSeekDepth = 20\<rparr>) ''A'' ''A'' [] = (False, [])
   \<and> getTransformation_maker line_ident line_mul line_inverse no_stream_data
        \<lparr>sourceFrame = ''A'', targetFrame = ''A'', transformationChain = []\<rparr> 0 False
      = ([], None)"
proof -
  have a: "getTransformationChain tree_ABCA ''A'' ''A'' [] = (True, [edge_CA, edge_BC, edge_AB])"
    by (simp add: getTransformationChain_def seekLevels.simps addTransformation_def example_defs)
  have b: "getTransformationChain tree_empty ''A'' ''A'' [] = (False, [])"
    by (simp add: getTransformationChain_def seekLevels.simps addTransformation_def example_defs)
  have c: "''A'' \<noteq> ''B''" by simp
  from a b c
    find_chain_same_frame [of tree_ABCA "''A''" "[edge_CA, edge_BC, edge_AB]" "''B''" "(1, 1)" 20
      line_ident line_mul line_inverse no_stream_data 0 False]
    find_chain_same_frame [of tree_empty "''A''" "[]" "''B''" "(1, 1)" 20
      line_ident line_mul line_inverse no_stream_data 0 False]
  show ?thesis by simp
qed

theorem find_chain_same_frame_counterexample:
  "getTransformationChain tree_AB ''A'' ''A'' [] = (False, [])
   \<and> getTransformationChain tree_ABCA ''A'' ''A'' [] = (True, [edge_CA, edge_BC, edge_AB])
   \<and> getTransformation_maker line_ident line_mul line_inverse no_stream_data
        \<lparr>sourceFrame = ''A'', targetFrame = ''A'', transformationChain = []\<rparr> 0 False
      = ([], None)"
  by (simp add: getTransformationChain_def seekLevels.simps addTransformation_def
        getTransformation_maker_def example_defs)

text \<open>
  C2, as the code has it. Whenever \<open>getTransformationChain\<close>, called with an empty
  result vector, succeeds, the vector it returns is in leaf-to-root order (the source prints
  it as "reverse"): it is not empty, its first edge is the one that enters the target frame
  \<open>to\<close>, its last edge is the one that leaves the source frame \<open>from\<close>, each edge
  starts where the edge after it in the vector ends, and every edge is one of the tree.
  The evaluations that follow are of the chain from \<open>A\<close> to \<open>C\<close> over \<open>B\<close>: the
  vector starts with the edge that leaves \<open>B\<close>.
\<close>

theorem chain_leaf_to_root:
  assumes "getTransformationChain tree frm to [] = (True, r)"
  shows "r \<noteq> [] \<and> getTargetFrame (hd r) = to \<and> getSourceFrame (last r) = frm
         \<and> (\<forall>i. Suc i < length r \<longrightarrow> getSourceFrame (r ! i) = getTargetFrame (r ! Suc i))
         \<and> set r \<subseteq> set (availableElements tree)"
proof -
  from getTransformationChain_found [OF assms] obtain p where
    p: "r = rev p" "p \<noteq> []" "set p \<subseteq> set (availableElements tree)" "connected frm p to"
    by auto
  from connected_nth [OF p(4) p(2)] p(1,2)
  have ends: "getTargetFrame (hd r) = to" "getSourceFrame (last r) = frm"
    by (simp_all add: hd_rev last_rev)
  have "getSourceFrame (r ! i) = getTargetFrame (r ! Suc i)" if "Suc i < length r" for i
    using connected_rev_nth [OF p(4), of i] that p(1) by simp
  with ends p(1,2,3) show ?thesis by simp
qed

theorem chain_leaf_to_root_witness:
  "getTransformationChain tree_ABC ''A'' ''C'' [] = (True, [edge_BC, edge_AB])
   \<and> getTargetFrame (hd [edge_BC, edge_AB]) = ''C''
   \<and> getSourceFrame (last [edge_BC, edge_AB]) = ''A''
   \<and> getSourceFrame ([edge_BC, edge_AB] ! 0) = getTargetFrame ([edge_BC, edge_AB] ! Suc 0)"
proof -
  have a: "getTransformationChain tree_ABC ''A'' ''C'' [] = (True, [edge_BC, edge_AB])"
    by (simp add: getTransformationChain_def seekLevels.simps addTransformation_def example_defs)
  from a chain_leaf_to_root [OF a] show ?thesis by simp
qed

theorem chain_root_to_leaf_counterexample:
  "getTransformationChain tree_ABC ''A'' ''C'' [] = (True, [edge_BC, edge_AB])
   \<and> getSourceFrame (hd [edge_BC, edge_AB]) \<noteq> ''A''
   \<and> getTargetFrame (last [edge_BC, edge_AB]) \<noteq> ''C''"
  by (simp add: getTransformationChain_def seekLevels.simps addTransformation_def example_defs)

text \<open>
  C3. For every maker with a non-empty chain and every query time, \<open>getTransformation\<close>
  samples the elements in chain order. When every element has a sample, all of them are
  sampled and the result is the product of the identity with the samples, multiplied on
  the right one after the other in chain order, with the source frame, the target frame
  and the query time of the maker in the other fields. When some element has no sample,
  the result is "no sample", and the elements sampled are those up to and including the
  first one without a sample: the loop returns there.
\<close>

theorem maker_getTransformation_composes:
  assumes "transformationChain maker \<noteq> []"
  shows "getTransformation_maker ident mul invert query maker time doInterpolation =
     (if \<forall>e\<in>set (transformationChain maker).
            getTransformation_element invert query e time doInterpolation \<noteq> None
      then (transformationChain maker,
            Some \<lparr>tr_from = sourceFrame maker, tr_to = targetFrame maker, tr_time = time,
                  tr_transform =
                    foldl mul ident
                      (map (\<lambda>e. the (getTransformation_element invert query e time doInterpolation))
                         (transformationChain maker))\<rparr>)
      else (take (Suc (length (takeWhile
                     (\<lambda>e. getTransformation_element invert query e time doInterpolation \<noteq> None)
                     (transformationChain maker))))
              (transformationChain maker),
            None))"
  using assms by (simp add: getTransformation_maker_def composeChain_eq)

theorem maker_getTransformation_composes_witness:
  "transformationChain (maker_AC\<lparr>transformationChain := [edge_BC, edge_AB]\<rparr>) \<noteq> []
   \<and> getTransformation_maker line_ident line_mul line_inverse no_stream_data
        (maker_AC\<lparr>transformationChain := [edge_BC, edge_AB]\<rparr>) 5 False
      = ([edge_BC, edge_AB],
         Some \<lparr>tr_from = ''A'', tr_to = ''C'', tr_time = 5,
               tr_transform = line_mul (line_mul line_ident (- 1, 0)) (1, 1)\<rparr>)
   \<and> transformationChain
        (maker_AC\<lparr>transformationChain := [DynamicTransformationElement ''B'' ''C'' 0, edge_AB]\<rparr>)
      \<noteq> []
   \<and> getTransformation_maker line_ident line_mul line_inverse no_stream_data
        (maker_AC\<lparr>transformationChain := [DynamicTransformationElement ''B'' ''C'' 0, edge_AB]\<rparr>)
        5 True
      = ([DynamicTransformationElement ''B'' ''C'' 0], None)"
proof -
  have a: "transformationChain (maker_AC\<lparr>transformationChain := [edge_BC, edge_AB]\<rparr>) \<noteq> []"
    by simp
  have b: "transformationChain
        (maker_AC\<lparr>transformationChain := [DynamicTransformationElement ''B'' ''C'' 0, edge_AB]\<rparr>)
      \<noteq> []"
    by simp
  from a b
    maker_getTransformation_composes [OF a, of line_ident line_mul line_inverse no_stream_data 5 False]
    maker_getTransformation_composes [OF b, of line_ident line_mul line_inverse no_stream_data 5 True]
  show ?thesis
    by (simp add: maker_AC_def edge_AB_def edge_BC_def no_stream_data_def)
qed

text \<open>
  C4. For every maker whose chain is empty, every time and every interpolation flag,
  \<open>getTransformation\<close> returns "no sample" and samples no element.
\<close>

theorem maker_empty_chain_no_sample:
  assumes "transformationChain maker = []"
  shows "getTransformation_maker ident mul invert query maker time doInterpolation = ([], None)"
  using assms by (simp add: getTransformation_maker_def)

theorem maker_empty_chain_no_sample_witness:
  "transformationChain maker_AC = []
   \<and> getTransformation_maker line_ident line_mul line_inverse no_stream_data maker_AC 7 True
      = ([], None)"
proof -
  have a: "transformationChain maker_AC = []" by (simp add: maker_AC_def)
  from a maker_empty_chain_no_sample [OF a, of line_ident line_mul line_inverse no_stream_data 7 True]
  show ?thesis by simp
qed

text \<open>
  C5. \<open>addTransformation\<close> appends the element and then a new inverse element that wraps
  it, whatever the tree already holds: the elements present before stay in front, so adding
  the same element twice leaves two copies of it and of its inverse. The source frame of the
  inverse is the target frame of the element and its target frame is the source frame of
  the element. The depth bound is not touched.
\<close>

theorem addTransformation_appends_pair:
  "availableElements (addTransformation element tree) =
     availableElements tree @ [element, InverseTransformationElement element]
   \<and> getSourceFrame (InverseTransformationElement element) = getTargetFrame element
   \<and> getTargetFrame (InverseTransformationElement element) = getSourceFrame element
   \<and> availableElements (addTransformation element (addTransformation element tree)) =
       availableElements tree @ [element, InverseTransformationElement element,
                                 element, InverseTransformationElement element]
   \<and> maxSeekDepth (addTransformation element tree) = maxSeekDepth tree"
  by (simp add: addTransformation_def)

theorem addTransformation_appends_pair_witness:
  "availableElements (addTransformation edge_AB tree_AB) =
     [edge_AB, InverseTransformationElement edge_AB, edge_AB, InverseTransformationElement edge_AB]
   \<and> getSourceFrame (InverseTransformationElement edge_AB) = ''B''
   \<and> getTargetFrame (InverseTransformationElement edge_AB) = ''A''"
  using addTransformation_appends_pair [of edge_AB tree_AB]
    addTransformation_appends_pair [of edge_AB tree_empty]
  by (simp add: tree_AB_def tree_empty_def edge_AB_def)

text \<open>
  C6, as the code has it. Expanding a node \<open>n\<close> creates one child for each available
  element that leaves the frame of \<open>n\<close>, in the order of the elements, except those whose
  target frame is the frame of the parent of \<open>n\<close>; the root, which has no parent, skips
  none. In consequence a chain returned by \<open>getTransformationChain\<close>, read in the order
  in which its edges are traversed from the source frame to the target frame, has no edge
  whose target frame is the frame that the edge before it started from. The returned vector
  holds the edges last edge first, so the traversal order is the reverse of the vector; in
  the vector itself the target frame of each edge is the frame the edge before it starts
  from, as the evaluation of the chain from \<open>A\<close> to \<open>C\<close> over \<open>B\<close> after the next
  two theorems shows. No two neighbouring edges of the returned vector are an element and
  its inverse element, in either order.
\<close>

theorem loop_guard_no_immediate_reversal:
  "addMatchingTransforms elems (frameName n) n [] =
     map (\<lambda>e. ChildNode (getTargetFrame e) n e)
       (filter (\<lambda>e. getSourceFrame e = frameName n
                  \<and> (case parent n of Some p \<Rightarrow> frameName p \<noteq> getTargetFrame e | None \<Rightarrow> True))
          elems)
   \<and> (getTransformationChain tree frm to [] = (True, r) \<and> Suc i < length r \<longrightarrow>
        getTargetFrame (rev r ! Suc i) \<noteq> getSourceFrame (rev r ! i)
        \<and> rev r ! Suc i \<noteq> InverseTransformationElement (rev r ! i)
        \<and> rev r ! i \<noteq> InverseTransformationElement (rev r ! Suc i)
        \<and> r ! Suc i \<noteq> InverseTransformationElement (r ! i)
        \<and> r ! i \<noteq> InverseTransformationElement (r ! Suc i))"
proof -
  have expand: "addMatchingTransforms elems (frameName n) n [] =
     map (\<lambda>e. ChildNode (getTargetFrame e) n e)
       (filter (\<lambda>e. getSourceFrame e = frameName n
                  \<and> (case parent n of Some p \<Rightarrow> frameName p \<noteq> getTargetFrame e | None \<Rightarrow> True))
          elems)"
  proof -
    have "(\<lambda>e::'a TransformationElement. getSourceFrame e = frameName n
             \<and> \<not> (case parent n of Some p \<Rightarrow> frameName p = getTargetFrame e | None \<Rightarrow> False))
        = (\<lambda>e. getSourceFrame e = frameName n
             \<and> (case parent n of Some p \<Rightarrow> frameName p \<noteq> getTargetFrame e | None \<Rightarrow> True))"
      by (auto split: option.splits)
    then show ?thesis by (simp add: addMatchingTransforms_eq)
  qed
  have chain: "getTargetFrame (rev r ! Suc i) \<noteq> getSourceFrame (rev r ! i)
        \<and> rev r ! Suc i \<noteq> InverseTransformationElement (rev r ! i)
        \<and> rev r ! i \<noteq> InverseTransformationElement (rev r ! Suc i)
        \<and> r ! Suc i \<noteq> InverseTransformationElement (r ! i)
        \<and> r ! i \<noteq> InverseTransformationElement (r ! Suc i)"
    if found: "getTransformationChain tree frm to [] = (True, r)" and i: "Suc i < length r"
  proof -
    from getTransformationChain_found [OF found] obtain p where
      p: "r = rev p" "noReversal p" by auto
    from p(1) i have len: "Suc i < length p" by simp
    have step: "getTargetFrame (p ! Suc j) \<noteq> getSourceFrame (p ! j)
        \<and> p ! Suc j \<noteq> InverseTransformationElement (p ! j)
        \<and> p ! j \<noteq> InverseTransformationElement (p ! Suc j)"
      if j: "Suc j < length p" for j
    proof -
      from noReversal_nth [OF p(2) j]
      have a: "getTargetFrame (p ! Suc j) \<noteq> getSourceFrame (p ! j)" .
      have c: "p ! Suc j \<noteq> InverseTransformationElement (p ! j)"
      proof
        assume "p ! Suc j = InverseTransformationElement (p ! j)"
        then have "getTargetFrame (p ! Suc j) = getSourceFrame (p ! j)" by simp
        with a show False by simp
      qed
      have d: "p ! j \<noteq> InverseTransformationElement (p ! Suc j)"
      proof
        assume "p ! j = InverseTransformationElement (p ! Suc j)"
        then have "getSourceFrame (p ! j) = getTargetFrame (p ! Suc j)" by simp
        with a show False by simp
      qed
      from a c d show ?thesis by simp
    qed
    let ?j = "length p - Suc (Suc i)"
    from len have j: "Suc ?j < length p" "Suc ?j = length p - Suc i" by simp_all
    from len p(1) have r: "r ! i = p ! Suc ?j" "r ! Suc i = p ! ?j"
      by (simp_all add: rev_nth j(2))
    from step [OF len] step [OF j(1)] r p(1) show ?thesis by simp
  qed
  from expand chain show ?thesis by blast
qed

theorem loop_guard_no_immediate_reversal_witness:
  "addMatchingTransforms (availableElements tree_ABC) (frameName (ChildNode ''B'' (RootNode ''A'') edge_AB))
      (ChildNode ''B'' (RootNode ''A'') edge_AB) []
     = [ChildNode ''C'' (ChildNode ''B'' (RootNode ''A'') edge_AB) edge_BC]
   \<and> getTransformationChain tree_ABC ''A'' ''C'' [] = (True, [edge_BC, edge_AB])
   \<and> Suc 0 < length [edge_BC, edge_AB]
   \<and> getTargetFrame (rev [edge_BC, edge_AB] ! Suc 0) \<noteq> getSourceFrame (rev [edge_BC, edge_AB] ! 0)
   \<and> rev [edge_BC, edge_AB] ! Suc 0 \<noteq> InverseTransformationElement (rev [edge_BC, edge_AB] ! 0)"
proof -
  have a: "getTransformationChain tree_ABC ''A'' ''C'' [] = (True, [edge_BC, edge_AB])"
    by (simp add: getTransformationChain_def seekLevels.simps addTransformation_def example_defs)
  have b: "Suc 0 < length [edge_BC, edge_AB]" by simp
  have c: "addMatchingTransforms (availableElements tree_ABC)
      (frameName (ChildNode ''B'' (RootNode ''A'') edge_AB))
      (ChildNode ''B'' (RootNode ''A'') edge_AB) []
     = [ChildNode ''C'' (ChildNode ''B'' (RootNode ''A'') edge_AB) edge_BC]"
    using loop_guard_no_immediate_reversal
      [of "availableElements tree_ABC" "ChildNode ''B'' (RootNode ''A'') edge_AB"
          tree_ABC "''A''" "''C''" "[edge_BC, edge_AB]" 0]
    by (simp add: addTransformation_def example_defs)
  from a b c
    loop_guard_no_immediate_reversal
      [of "availableElements tree_ABC" "ChildNode ''B'' (RootNode ''A'') edge_AB"
          tree_ABC "''A''" "''C''" "[edge_BC, edge_AB]" 0]
  show ?thesis by simp
qed

theorem consecutive_edges_in_vector_counterexample:
  "getTransformationChain tree_ABC ''A'' ''C'' [] = (True, [edge_BC, edge_AB])
   \<and> Suc 0 < length [edge_BC, edge_AB]
   \<and> getSourceFrame ([edge_BC, edge_AB] ! 0) = ''B''
   \<and> getTargetFrame ([edge_BC, edge_AB] ! Suc 0) = ''B''
   \<and> getTargetFrame ([edge_BC, edge_AB] ! Suc 0) = getSourceFrame ([edge_BC, edge_AB] ! 0)"
  by (simp add: getTransformationChain_def seekLevels.simps addTransformation_def example_defs)

text \<open>
  C7. \<open>getTransformationChain\<close> always returns: the model is a total function, the
  outer loop runs at most \<open>maxSeekDepth\<close> times. A chain it returns has at most
  \<open>maxSeekDepth\<close> edges. When it fails it returns false and leaves the result vector as
  it was. It succeeds exactly when the tree holds a way from the source frame to the
  target frame of at least one and at most \<open>maxSeekDepth\<close> edges in which no edge leads
  back to the frame the edge before it started from; for every other pair of frames,
  unreachable or too far, the answer is false.
\<close>

theorem chain_length_bounded_or_none:
  "(getTransformationChain tree frm to [] = (True, r) \<longrightarrow>
      1 \<le> length r \<and> int (length r) \<le> maxSeekDepth tree)
   \<and> (getTransformationChain tree frm to result = (False, r) \<longrightarrow> r = result)
   \<and> (fst (getTransformationChain tree frm to result) =
        (\<exists>p. p \<noteq> [] \<and> int (length p) \<le> maxSeekDepth tree
            \<and> set p \<subseteq> set (availableElements tree) \<and> connected frm p to \<and> noReversal p))"
proof -
  have bound: "getTransformationChain tree frm to [] = (True, r) \<longrightarrow>
      1 \<le> length r \<and> int (length r) \<le> maxSeekDepth tree"
  proof
    assume "getTransformationChain tree frm to [] = (True, r)"
    from getTransformationChain_found [OF this] obtain p where
      "r = rev p" "p \<noteq> []" "int (length p) \<le> maxSeekDepth tree" by auto
    then show "1 \<le> length r \<and> int (length r) \<le> maxSeekDepth tree"
      by (cases p) simp_all
  qed
  have none: "getTransformationChain tree frm to result = (False, r) \<longrightarrow> r = result"
    using getTransformationChain_not_found [of tree frm to result r] by blast
  have iff: "fst (getTransformationChain tree frm to result) =
        (\<exists>p. p \<noteq> [] \<and> int (length p) \<le> maxSeekDepth tree
            \<and> set p \<subseteq> set (availableElements tree) \<and> connected frm p to \<and> noReversal p)"
  proof
    assume f: "fst (getTransformationChain tree frm to result)"
    then have "getTransformationChain tree frm to result =
        (True, snd (getTransformationChain tree frm to result))"
      by (cases "getTransformationChain tree frm to result") simp
    from getTransformationChain_found [OF this]
    show "\<exists>p. p \<noteq> [] \<and> int (length p) \<le> maxSeekDepth tree
            \<and> set p \<subseteq> set (availableElements tree) \<and> connected frm p to \<and> noReversal p"
      by blast
  next
    assume "\<exists>p. p \<noteq> [] \<and> int (length p) \<le> maxSeekDepth tree
            \<and> set p \<subseteq> set (availableElements tree) \<and> connected frm p to \<and> noReversal p"
    then obtain p where "p \<noteq> []" "int (length p) \<le> maxSeekDepth tree"
      "set p \<subseteq> set (availableElements tree)" "connected frm p to" "noReversal p"
      by blast
    then show "fst (getTransformationChain tree frm to result)"
      by (rule getTransformationChain_complete)
  qed
  from bound none iff show ?thesis by blast
qed

theorem chain_length_bounded_or_none_witness:
  "getTransformationChain tree_ABC ''A'' ''C'' [] = (True, [edge_BC, edge_AB])
   \<and> 1 \<le> length [edge_BC, edge_AB]
   \<and> int (length [edge_BC, edge_AB]) \<le> maxSeekDepth tree_ABC
   \<and> getTransformationChain (tree_ABC\<lparr>maxSeekDepth := 1\<rparr>) ''A'' ''C'' [] = (False, [])
   \<and> getTransformationChain tree_AB ''A'' ''Z'' [] = (False, [])"
proof -
  have a: "getTransformationChain tree_ABC ''A'' ''C'' [] = (True, [edge_BC, edge_AB])"
    by (simp add: getTransformationChain_def seekLevels.simps addTransformation_def example_defs)
  have b: "getTransformationChain (tree_ABC\<lparr>maxSeekDepth := 1\<rparr>) ''A'' ''C'' [] = (False, [])"
    by (simp add: getTransformationChain_def seekLevels.simps addTransformation_def example_defs)
  have c: "getTransformationChain tree_AB ''A'' ''Z'' [] = (False, [])"
    by (simp add: getTransformationChain_def seekLevels.simps addTransformation_def example_defs)
  have d: "maxSeekDepth tree_ABC = 20"
    by (simp add: addTransformation_def example_defs)
  from a b c d
    chain_length_bounded_or_none [of tree_ABC "''A''" "''C''" "[edge_BC, edge_AB]" "[]"]
    chain_length_bounded_or_none [of "tree_ABC\<lparr>maxSeekDepth := 1\<rparr>" "''A''" "''C''" "[]" "[]"]
    chain_length_bounded_or_none [of tree_AB "''A''" "''Z''" "[]" "[]"]
  show ?thesis by simp
qed

text \<open>
  C8. A call of \<open>pushDynamicTransformation\<close> with a sample whose ordered pair of frames
  has no entry in \<open>transformToStreamIndex\<close> completes (the assertion holds) and does the
  following: it registers a stream with the aggregator; it stores the index the aggregator
  returns under that pair, keeping every entry the map had; it adds a dynamic element for
  the pair and that index, and its inverse, to the tree; it gives every registered maker
  for which a chain is found in the new tree that chain; and it pushes the sample under
  the index into the aggregator as it is after the registration. A later push of a sample
  of the same pair finds the entry: it registers nothing, changes neither the map, the tree
  nor the makers, and pushes under the same index. When the aggregator returns an index
  that the map does not hold yet, distinct pairs keep distinct indices.
\<close>

theorem pushDynamicTransformation_new_pair:
  assumes "transformToStreamIndex T (tr_from tr, tr_to tr) = None"
      and "registerStream (aggregator T) = (streamIdx, aggR)"
  shows "\<exists>T'. pushDynamicTransformation registerStream push tr T = Some T'
   \<and> transformToStreamIndex T' = (transformToStreamIndex T)((tr_from tr, tr_to tr) \<mapsto> streamIdx)
   \<and> (\<forall>p i. transformToStreamIndex T p = Some i \<longrightarrow> transformToStreamIndex T' p = Some i)
   \<and> availableElements (transformationTree T') =
       availableElements (transformationTree T) @
         [DynamicTransformationElement (tr_from tr) (tr_to tr) streamIdx,
          InverseTransformationElement (DynamicTransformationElement (tr_from tr) (tr_to tr) streamIdx)]
   \<and> length (transformationMakers T') = length (transformationMakers T)
   \<and> (\<forall>k chain. k < length (transformationMakers T) \<and>
         getTransformationChain (transformationTree T')
           (sourceFrame (transformationMakers T ! k)) (targetFrame (transformationMakers T ! k)) []
           = (True, chain) \<longrightarrow>
         transformationMakers T' ! k = (transformationMakers T ! k)\<lparr>transformationChain := chain\<rparr>)
   \<and> aggregator T' = push streamIdx (tr_time tr) tr aggR
   \<and> (\<forall>tr2. tr_from tr2 = tr_from tr \<and> tr_to tr2 = tr_to tr \<longrightarrow>
         pushDynamicTransformation registerStream push tr2 T' =
           Some (T'\<lparr>aggregator := push streamIdx (tr_time tr2) tr2 (aggregator T')\<rparr>))
   \<and> (streamIdx \<notin> ran (transformToStreamIndex T)
        \<and> inj_on (transformToStreamIndex T) (dom (transformToStreamIndex T)) \<longrightarrow>
       inj_on (transformToStreamIndex T') (dom (transformToStreamIndex T')))"
proof -
  define T' where "T' =
      \<lparr>aggregator = push streamIdx (tr_time tr) tr aggR,
       transformToStreamIndex = (transformToStreamIndex T)((tr_from tr, tr_to tr) \<mapsto> streamIdx),
       transformationTree =
         addTransformation (DynamicTransformationElement (tr_from tr) (tr_to tr) streamIdx)
           (transformationTree T),
       transformationMakers =
         updateChains
           (addTransformation (DynamicTransformationElement (tr_from tr) (tr_to tr) streamIdx)
              (transformationTree T))
           (transformationMakers T)\<rparr>"
  have eq: "pushDynamicTransformation registerStream push tr T = Some T'"
    unfolding T'_def
    by (rule pushDynamicTransformation_unknown
      [where T = T and tr = tr and registerStream = registerStream and streamIdx = streamIdx
         and aggR = aggR and push = push, OF assms])
  have m: "transformToStreamIndex T' =
      (transformToStreamIndex T)((tr_from tr, tr_to tr) \<mapsto> streamIdx)"
    by (simp add: T'_def)
  have keep: "transformToStreamIndex T' p = Some i" if "transformToStreamIndex T p = Some i" for p i
    using that assms(1) by (auto simp: m)
  have t: "availableElements (transformationTree T') =
       availableElements (transformationTree T) @
         [DynamicTransformationElement (tr_from tr) (tr_to tr) streamIdx,
          InverseTransformationElement (DynamicTransformationElement (tr_from tr) (tr_to tr) streamIdx)]"
    by (simp add: T'_def addTransformation_def)
  have l: "length (transformationMakers T') = length (transformationMakers T)"
    by (simp add: T'_def updateChains_length)
  have c: "transformationMakers T' ! k = (transformationMakers T ! k)\<lparr>transformationChain := chain\<rparr>"
    if "k < length (transformationMakers T) \<and>
        getTransformationChain (transformationTree T')
             (sourceFrame (transformationMakers T ! k)) (targetFrame (transformationMakers T ! k)) []
           = (True, chain)"
    for k chain
    using that by (simp add: T'_def updateChains_nth setTransformationChain_def)
  have a: "aggregator T' = push streamIdx (tr_time tr) tr aggR"
    by (simp add: T'_def)
  have again: "pushDynamicTransformation registerStream push tr2 T' =
         Some (T'\<lparr>aggregator := push streamIdx (tr_time tr2) tr2 (aggregator T')\<rparr>)"
    if "tr_from tr2 = tr_from tr \<and> tr_to tr2 = tr_to tr" for tr2
  proof -
    from that m have "transformToStreamIndex T' (tr_from tr2, tr_to tr2) = Some streamIdx"
      by simp
    then show ?thesis by (rule pushDynamicTransformation_known)
  qed
  have inj: "inj_on (transformToStreamIndex T') (dom (transformToStreamIndex T'))"
    if "streamIdx \<notin> ran (transformToStreamIndex T)
        \<and> inj_on (transformToStreamIndex T) (dom (transformToStreamIndex T))"
    using that unfolding m by (auto simp: inj_on_def ran_def dom_def split: if_splits)
  from eq m keep t l c a again inj show ?thesis by blast
qed

theorem pushDynamicTransformation_new_pair_witness:
  "transformToStreamIndex transformer_S3 (tr_from sample_BC, tr_to sample_BC) = None
   \<and> counting_registerStream (aggregator transformer_S3) = (0, (1, []))
   \<and> pushDynamicTransformation counting_registerStream logging_push sample_BC transformer_S3 =
       Some transformer_S3_BC
   \<and> pushDynamicTransformation counting_registerStream logging_push (sample_BC\<lparr>tr_time := 11\<rparr>)
        transformer_S3_BC
       = Some (transformer_S3_BC\<lparr>aggregator := (1, [(0, 10), (0, 11)])\<rparr>)
   \<and> transformToStreamIndex transformer_S3_BC (tr_from sample_CD, tr_to sample_CD) = None
   \<and> counting_registerStream (aggregator transformer_S3_BC) = (1, (2, [(0, 10)]))
   \<and> 1 \<notin> ran (transformToStreamIndex transformer_S3_BC)
   \<and> inj_on (transformToStreamIndex transformer_S3_BC) (dom (transformToStreamIndex transformer_S3_BC))
   \<and> (\<exists>T'. pushDynamicTransformation counting_registerStream logging_push sample_CD
               transformer_S3_BC = Some T'
         \<and> transformToStreamIndex T' (''B'', ''C'') = Some 0
         \<and> transformToStreamIndex T' (''C'', ''D'') = Some 1
         \<and> inj_on (transformToStreamIndex T') (dom (transformToStreamIndex T'))
         \<and> aggregator T' = (2, [(0, 10), (1, 12)]))"
proof -
  have a: "transformToStreamIndex transformer_S3 (tr_from sample_BC, tr_to sample_BC) = None"
    by (simp add: transformer_S3_def)
  have b: "counting_registerStream (aggregator transformer_S3) = (0, (1, []))"
    by (simp add: transformer_S3_def counting_registerStream_def)
  note first = pushDynamicTransformation_new_pair
    [where T = transformer_S3 and tr = sample_BC and registerStream = counting_registerStream
       and streamIdx = 0 and aggR = "(1, [])" and push = logging_push, OF a b]
  have e: "pushDynamicTransformation counting_registerStream logging_push sample_BC transformer_S3 =
       Some transformer_S3_BC"
    by (simp add: pushDynamicTransformation_def registerTransformationStream_def Let_def
          getTransformationChain_def seekLevels.simps addTransformation_def
          setTransformationChain_def example_defs transformer_S3_BC_def)
  from first e have "\<forall>tr2. tr_from tr2 = tr_from sample_BC \<and> tr_to tr2 = tr_to sample_BC \<longrightarrow>
         pushDynamicTransformation counting_registerStream logging_push tr2 transformer_S3_BC =
           Some (transformer_S3_BC
                   \<lparr>aggregator := logging_push 0 (tr_time tr2) tr2 (aggregator transformer_S3_BC)\<rparr>)"
    by auto
  then have "pushDynamicTransformation counting_registerStream logging_push
       (sample_BC\<lparr>tr_time := 11\<rparr>) transformer_S3_BC
     = Some (transformer_S3_BC
               \<lparr>aggregator := logging_push 0 11 (sample_BC\<lparr>tr_time := 11\<rparr>)
                                (aggregator transformer_S3_BC)\<rparr>)"
    by simp
  then have again: "pushDynamicTransformation counting_registerStream logging_push
       (sample_BC\<lparr>tr_time := 11\<rparr>) transformer_S3_BC
       = Some (transformer_S3_BC\<lparr>aggregator := (1, [(0, 10), (0, 11)])\<rparr>)"
    by (simp add: logging_push_def transformer_S3_BC_def)
  have c: "transformToStreamIndex transformer_S3_BC (tr_from sample_CD, tr_to sample_CD) = None"
    by (simp add: transformer_S3_BC_def sample_CD_def)
  have d: "counting_registerStream (aggregator transformer_S3_BC) = (1, (2, [(0, 10)]))"
    by (simp add: transformer_S3_BC_def counting_registerStream_def)
  have f: "1 \<notin> ran (transformToStreamIndex transformer_S3_BC)"
    by (simp add: transformer_S3_BC_def)
  have g: "inj_on (transformToStreamIndex transformer_S3_BC)
             (dom (transformToStreamIndex transformer_S3_BC))"
    by (simp add: transformer_S3_BC_def)
  have h: "transformToStreamIndex transformer_S3_BC (''B'', ''C'') = Some 0"
    by (simp add: transformer_S3_BC_def)
  from pushDynamicTransformation_new_pair
    [where T = transformer_S3_BC and tr = sample_CD and registerStream = counting_registerStream
       and streamIdx = 1 and aggR = "(2, [(0, 10)])" and push = logging_push, OF c d]
  obtain T' where T': "pushDynamicTransformation counting_registerStream logging_push sample_CD
               transformer_S3_BC = Some T'"
    and m: "transformToStreamIndex T' =
              (transformToStreamIndex transformer_S3_BC)((tr_from sample_CD, tr_to sample_CD) \<mapsto> 1)"
    and keep: "\<forall>p i. transformToStreamIndex transformer_S3_BC p = Some i \<longrightarrow>
                 transformToStreamIndex T' p = Some i"
    and inj: "1 \<notin> ran (transformToStreamIndex transformer_S3_BC)
        \<and> inj_on (transformToStreamIndex transformer_S3_BC)
            (dom (transformToStreamIndex transformer_S3_BC)) \<longrightarrow>
       inj_on (transformToStreamIndex T') (dom (transformToStreamIndex T'))"
    and agg: "aggregator T' = logging_push 1 (tr_time sample_CD) sample_CD (2, [(0, 10)])"
    by blast
  from keep h have k1: "transformToStreamIndex T' (''B'', ''C'') = Some 0" by blast
  from m have k2: "transformToStreamIndex T' (''C'', ''D'') = Some 1"
    by (simp add: sample_CD_def)
  from inj f g have k3: "inj_on (transformToStreamIndex T') (dom (transformToStreamIndex T'))"
    by blast
  from agg have k4: "aggregator T' = (2, [(0, 10), (1, 12)])"
    by (simp add: logging_push_def sample_CD_def)
  from a b e again c d f g T' k1 k2 k3 k4 show ?thesis by blast
qed

text \<open>
  C9. \<open>pushStaticTransformation\<close> appends one static element, built from the frames and
  the transform of the sample, and its inverse to the tree, and changes nothing else: the
  makers and their chains, the stream index map and the aggregator are as before.
\<close>

theorem pushStaticTransformation_adds_one_edge:
  "availableElements (transformationTree (pushStaticTransformation tr T)) =
     availableElements (transformationTree T) @
       [StaticTransformationElement (tr_from tr) (tr_to tr) (tr_transform tr),
        InverseTransformationElement
          (StaticTransformationElement (tr_from tr) (tr_to tr) (tr_transform tr))]
   \<and> transformationMakers (pushStaticTransformation tr T) = transformationMakers T
   \<and> map transformationChain (transformationMakers (pushStaticTransformation tr T)) =
       map transformationChain (transformationMakers T)
   \<and> transformToStreamIndex (pushStaticTransformation tr T) = transformToStreamIndex T
   \<and> aggregator (pushStaticTransformation tr T) = aggregator T
   \<and> maxSeekDepth (transformationTree (pushStaticTransformation tr T)) =
       maxSeekDepth (transformationTree T)"
  by (simp add: pushStaticTransformation_def addTransformation_def)

theorem pushStaticTransformation_adds_one_edge_witness:
  "availableElements
     (transformationTree
        (pushStaticTransformation
           \<lparr>tr_from = ''B'', tr_to = ''Z'', tr_time = 0, tr_transform = (1, 2)\<rparr> transformer_S3)) =
     [edge_AB, InverseTransformationElement edge_AB,
      StaticTransformationElement ''B'' ''Z'' (1, 2),
      InverseTransformationElement (StaticTransformationElement ''B'' ''Z'' (1, 2))]
   \<and> transformationMakers
        (pushStaticTransformation
           \<lparr>tr_from = ''B'', tr_to = ''Z'', tr_time = 0, tr_transform = (1, 2)\<rparr> transformer_S3) =
       [maker_AC, maker_XY]"
  using pushStaticTransformation_adds_one_edge
    [of "\<lparr>tr_from = ''B'', tr_to = ''Z'', tr_time = 0, tr_transform = (1, 2)\<rparr>" transformer_S3]
  by (simp add: transformer_S3_def tree_AB_def tree_empty_def addTransformation_def)

text \<open>
  C10. In the pass of \<open>pushDynamicTransformation\<close> over the makers, run when the pair of
  the sample was unknown, the chain of a maker is replaced by the chain found for its pair
  in the new tree when \<open>getTransformationChain\<close> succeeds; when it fails the maker is
  left as it was, with the chain it had, empty or not.
\<close>

theorem reresolution_keeps_chain_on_failure:
  assumes "transformToStreamIndex T (tr_from tr, tr_to tr) = None"
      and "registerStream (aggregator T) = (streamIdx, aggR)"
      and "k < length (transformationMakers T)"
      and "getTransformationChain
             (addTransformation (DynamicTransformationElement (tr_from tr) (tr_to tr) streamIdx)
                (transformationTree T))
             (sourceFrame (transformationMakers T ! k)) (targetFrame (transformationMakers T ! k)) []
           = (found, chain)"
  shows "\<exists>T'. pushDynamicTransformation registerStream push tr T = Some T'
           \<and> transformationMakers T' ! k =
               (if found then (transformationMakers T ! k)\<lparr>transformationChain := chain\<rparr>
                else transformationMakers T ! k)"
  using assms(3,4)
  by (simp add: updateChains_nth setTransformationChain_def
        pushDynamicTransformation_unknown
          [where T = T and tr = tr and registerStream = registerStream and streamIdx = streamIdx
             and aggR = aggR and push = push, OF assms(1,2)])

theorem reresolution_keeps_chain_on_failure_witness:
  "transformToStreamIndex transformer_S3 (tr_from sample_BC, tr_to sample_BC) = None
   \<and> counting_registerStream (aggregator transformer_S3) = (0, (1, []))
   \<and> Suc 0 < length (transformationMakers transformer_S3)
   \<and> getTransformationChain
        (addTransformation (DynamicTransformationElement (tr_from sample_BC) (tr_to sample_BC) 0)
           (transformationTree transformer_S3))
        (sourceFrame (transformationMakers transformer_S3 ! Suc 0))
        (targetFrame (transformationMakers transformer_S3 ! Suc 0)) []
      = (False, [])
   \<and> (\<exists>T'. pushDynamicTransformation counting_registerStream logging_push sample_BC transformer_S3
               = Some T'
         \<and> transformationMakers T' ! Suc 0 = maker_XY)
   \<and> transformationChain maker_XY = [edge_AB]
   \<and> 0 < length (transformationMakers transformer_S3)
   \<and> getTransformationChain
        (addTransformation (DynamicTransformationElement (tr_from sample_BC) (tr_to sample_BC) 0)
           (transformationTree transformer_S3))
        (sourceFrame (transformationMakers transformer_S3 ! 0))
        (targetFrame (transformationMakers transformer_S3 ! 0)) []
      = (True, [DynamicTransformationElement ''B'' ''C'' 0, edge_AB])
   \<and> (\<exists>T'. pushDynamicTransformation counting_registerStream logging_push sample_BC transformer_S3
               = Some T'
         \<and> transformationMakers T' ! 0 =
             maker_AC\<lparr>transformationChain := [DynamicTransformationElement ''B'' ''C'' 0, edge_AB]\<rparr>)"
proof -
  have a: "transformToStreamIndex transformer_S3 (tr_from sample_BC, tr_to sample_BC) = None"
    by (simp add: transformer_S3_def)
  have b: "counting_registerStream (aggregator transformer_S3) = (0, (1, []))"
    by (simp add: transformer_S3_def counting_registerStream_def)
  have c: "Suc 0 < length (transformationMakers transformer_S3)"
    by (simp add: transformer_S3_def)
  have d: "getTransformationChain
        (addTransformation (DynamicTransformationElement (tr_from sample_BC) (tr_to sample_BC) 0)
           (transformationTree transformer_S3))
        (sourceFrame (transformationMakers transformer_S3 ! Suc 0))
        (targetFrame (transformationMakers transformer_S3 ! Suc 0)) []
      = (False, [])"
    by (simp add: getTransformationChain_def seekLevels.simps addTransformation_def example_defs)
  have e: "transformationMakers transformer_S3 ! Suc 0 = maker_XY"
    by (simp add: transformer_S3_def)
  have c0: "0 < length (transformationMakers transformer_S3)"
    by (simp add: transformer_S3_def)
  have d0: "getTransformationChain
        (addTransformation (DynamicTransformationElement (tr_from sample_BC) (tr_to sample_BC) 0)
           (transformationTree transformer_S3))
        (sourceFrame (transformationMakers transformer_S3 ! 0))
        (targetFrame (transformationMakers transformer_S3 ! 0)) []
      = (True, [DynamicTransformationElement ''B'' ''C'' 0, edge_AB])"
    by (simp add: getTransformationChain_def seekLevels.simps addTransformation_def example_defs)
  have e0: "transformationMakers transformer_S3 ! 0 = maker_AC"
    by (simp add: transformer_S3_def)
  have x: "\<exists>T'. pushDynamicTransformation counting_registerStream logging_push sample_BC transformer_S3
               = Some T'
         \<and> transformationMakers T' ! Suc 0 = maker_XY"
    using e reresolution_keeps_chain_on_failure
      [where T = transformer_S3 and tr = sample_BC and registerStream = counting_registerStream
         and streamIdx = 0 and aggR = "(1, [])" and k = "Suc 0" and found = False
         and chain = "[]" and push = logging_push, OF a b c d]
    by simp
  have y: "\<exists>T'. pushDynamicTransformation counting_registerStream logging_push sample_BC transformer_S3
               = Some T'
         \<and> transformationMakers T' ! 0 =
             maker_AC\<lparr>transformationChain := [DynamicTransformationElement ''B'' ''C'' 0, edge_AB]\<rparr>"
    using e0 reresolution_keeps_chain_on_failure
      [where T = transformer_S3 and tr = sample_BC and registerStream = counting_registerStream
         and streamIdx = 0 and aggR = "(1, [])" and k = 0 and found = True
         and chain = "[DynamicTransformationElement ''B'' ''C'' 0, edge_AB]" and push = logging_push,
       OF a b c0 d0]
    by simp
  have z: "transformationChain maker_XY = [edge_AB]" by (simp add: maker_XY_def)
  from a b c d x z c0 d0 y show ?thesis by blast
qed

end
